theory Spec2Isabelle
  imports Complex_Main "HOL-Library.Sublist" "HOL-Library.AList" "HOL-Library.Finite_Map"
    "HOL-Library.Multiset"
begin

section \<open>The local document store: JSON values and the data directory\<close>

text \<open>
  The server keeps one file per document in its data directory and handles every
  document as an untyped JSON value (\<^verbatim>\<open>memory: any\<close>). The embedding follows that: a
  document is a \<open>json\<close> value, an object is the finite map from its own property
  names to their values, and a missing property (\<^verbatim>\<open>undefined\<close>) is \<open>None\<close>. The order
  in which an object enumerates its properties is not represented; nothing the
  handlers compute depends on it.

  Conventions of the embedding:
  \<^item> a \<open>string\<close> is a JavaScript string, one \<open>char\<close> per code unit; only
    \<^verbatim>\<open>startsWith\<close>, \<^verbatim>\<open>slice\<close>, \<^verbatim>\<open>endsWith\<close>, concatenation and equality are used on them;
  \<^item> a JSON number is an \<open>int\<close>, standing for the integers a JavaScript number
    holds exactly and prints in decimal (below \<open>2^53\<close> in magnitude);
  \<^item> the identifier from \<^verbatim>\<open>crypto.randomUUID()\<close> and the time stamp from
    \<^verbatim>\<open>new Date().toISOString()\<close> are inputs of the operations;
  \<^item> \<^verbatim>\<open>Date.parse\<close> is a parameter \<open>dp\<close> of everything that sorts (\<open>None\<close> is \<^verbatim>\<open>NaN\<close>);
  \<^item> a file of the data directory is abstracted by what \<^verbatim>\<open>readFile\<close> followed by
    \<^verbatim>\<open>JSON.parse\<close> makes of it: \<open>Text v\<close> holds text that parses to \<open>v\<close> (in particular
    the text \<^verbatim>\<open>JSON.stringify(v, null, 2)\<close>), \<open>Unreadable\<close> is a file on which one of
    the two throws;
  \<^item> the data directory is the list of its entries in the order \<^verbatim>\<open>readdir\<close> reports
    them; its entries are regular files, and a write to a file directly in it succeeds
    (the file system accepts the name, which for a name made from a JSON string means
    that it holds no NUL character and is within the length the file system allows);
  \<^item> paths are POSIX paths. The identifier of a route (\<^verbatim>\<open>:id\<close>) is one path segment, so
    for it \<^verbatim>\<open>path.join\<close> only appends the file name to the data directory; the
    \<^verbatim>\<open>id\<close> of a document that \<^verbatim>\<open>saveMemory\<close> writes is an arbitrary JSON value, and for
    it the conversion to a string and \<^verbatim>\<open>path.join\<close> are modelled in full;
  \<^item> what lies outside the data directory is not part of the state: the workspace
    root and whether a write to a given path outside the data directory succeeds are
    parameters (\<open>host\<close>).
\<close>

datatype json =
    JNull
  | JBool bool
  | JNum int
  | JStr string
  | JArr "json list"
  | JObj "(string, json) fmap"

datatype failure = NotFound | InternalError

datatype fdata = Text json | Unreadable

type_synonym dir = "(string \<times> fdata) list"


subsection \<open>JavaScript primitives used by the handlers\<close>

definition digit_char :: "nat \<Rightarrow> char" where
  "digit_char n = char_of (48 + n)"

function show_nat :: "nat \<Rightarrow> string" where
  "show_nat n = (if n < 10 then [digit_char n] else show_nat (n div 10) @ [digit_char (n mod 10)])"
  by pat_completeness auto
termination
  by (relation "measure id") auto

declare show_nat.simps [simp del]

definition show_int :: "int \<Rightarrow> string" where
  "show_int i = (if i < 0 then ''-'' @ show_nat (nat (- i)) else show_nat (nat i))"

fun join_commas :: "string list \<Rightarrow> string" where
  "join_commas [] = ''''"
| "join_commas [s] = s"
| "join_commas (s # t # ts) = s @ '','' @ join_commas (t # ts)"

text \<open>The conversion of a value to a string, as a template literal and \<^verbatim>\<open>new Date\<close>
  apply it; \<open>None\<close> when it throws a TypeError. An array joins its elements with
  commas, printing \<^verbatim>\<open>null\<close> elements as the empty string, and throws when an element
  does. An object is converted by its \<^verbatim>\<open>toString\<close> method, then by \<^verbatim>\<open>valueOf\<close>: an object
  parsed from JSON inherits both, \<^verbatim>\<open>Object.prototype.toString\<close> answers
  \<^verbatim>\<open>[object Object]\<close> and \<^verbatim>\<open>Object.prototype.valueOf\<close> answers the object itself, which
  is no primitive value. A property \<^verbatim>\<open>toString\<close> of its own hides the inherited method
  and, coming from JSON, cannot be called, so the conversion throws, in whichever
  order the two methods are tried.\<close>

fun js_string :: "json \<Rightarrow> string option" where
  "js_string JNull = Some ''null''"
| "js_string (JBool b) = Some (if b then ''true'' else ''false'')"
| "js_string (JNum i) = Some (show_int i)"
| "js_string (JStr s) = Some s"
| "js_string (JArr xs) =
     map_option join_commas
       (those (map (\<lambda>x. if x = JNull then Some '''' else js_string x) xs))"
| "js_string (JObj kv) =
     (if ''toString'' |\<in>| fmdom kv then None else Some ''[object Object]'')"

text \<open>The conversion inside a template literal, where \<^verbatim>\<open>undefined\<close> can occur.\<close>

definition template :: "json option \<Rightarrow> string option" where
  "template v = (case v of None \<Rightarrow> Some ''undefined'' | Some x \<Rightarrow> js_string x)"

text \<open>Truthiness, for \<^verbatim>\<open>a || b\<close> and \<^verbatim>\<open>a && b\<close>.\<close>

fun truthy :: "json \<Rightarrow> bool" where
  "truthy JNull = False"
| "truthy (JBool b) = b"
| "truthy (JNum i) = (i \<noteq> 0)"
| "truthy (JStr s) = (s \<noteq> [])"
| "truthy (JArr xs) = True"
| "truthy (JObj kv) = True"

definition or_else :: "json option \<Rightarrow> json \<Rightarrow> json" where
  "or_else v d = (case v of None \<Rightarrow> d | Some x \<Rightarrow> if truthy x then x else d)"

text \<open>The own enumerable properties of a value, which is what an object spread
  \<^verbatim>\<open>{...v}\<close> copies: the entries of an object, the indexed elements of an array, the
  indexed code units of a string, nothing for the other values.\<close>

definition indexed :: "'a list \<Rightarrow> (string \<times> 'a) list" where
  "indexed xs = zip (map show_nat [0..<length xs]) xs"

fun own :: "json \<Rightarrow> (string, json) fmap" where
  "own (JObj kv) = kv"
| "own (JArr xs) = fmap_of_list (indexed xs)"
| "own (JStr s) = fmap_of_list (indexed (map (\<lambda>c. JStr [c]) s))"
| "own _ = fmempty"

definition spread :: "json option \<Rightarrow> (string, json) fmap" where
  "spread v = (case v of None \<Rightarrow> fmempty | Some x \<Rightarrow> own x)"

text \<open>\<^verbatim>\<open>v.name\<close> for a value other than \<^verbatim>\<open>null\<close> and the property names the handlers read
  (\<^verbatim>\<open>id\<close>, \<^verbatim>\<open>content\<close>, \<^verbatim>\<open>metadata\<close>, \<^verbatim>\<open>containerTags\<close>, \<^verbatim>\<open>createdAt\<close>), none of which an
  array or a string inherits. On \<^verbatim>\<open>null\<close> the access throws a TypeError; the handlers
  below test for it before they call \<open>field\<close>.\<close>

definition field :: "json \<Rightarrow> string \<Rightarrow> json option" where
  "field v name = fmlookup (own v) name"

text \<open>An object literal \<^verbatim>\<open>{...a, ...b, name: v}\<close> is \<open>fmupd name v (own a ++\<^sub>f own b)\<close>: the
  properties of \<open>b\<close> replace those of \<open>a\<close> with the same name, and \<open>name\<close> is set last.\<close>


subsection \<open>The data directory\<close>

definition readdir :: "dir \<Rightarrow> string list" where
  "readdir d = map fst d"

text \<open>\<^verbatim>\<open>JSON.parse(await fs.readFile(path, 'utf-8'))\<close>; \<open>None\<close> when either throws.\<close>

definition read_json :: "dir \<Rightarrow> string \<Rightarrow> json option" where
  "read_json d name = (case map_of d name of Some (Text v) \<Rightarrow> Some v | _ \<Rightarrow> None)"

text \<open>\<^verbatim>\<open>fs.writeFile\<close> replaces the content of an existing file and creates a missing one;
  where \<^verbatim>\<open>readdir\<close> lists a new file is the file system's choice, here it is last.\<close>

definition writeFile :: "string \<Rightarrow> fdata \<Rightarrow> dir \<Rightarrow> dir" where
  "writeFile name c d = AList.update name c d"

text \<open>\<^verbatim>\<open>fs.unlink\<close>; \<open>None\<close> when it throws because there is no such file.\<close>

definition unlink :: "string \<Rightarrow> dir \<Rightarrow> dir option" where
  "unlink name d = (if name \<in> set (readdir d) then Some (AList.delete name d) else None)"

text \<open>The file name \<^verbatim>\<open>`${id}.json`\<close> for an identifier that is a string.\<close>

definition doc_path :: "string \<Rightarrow> string" where
  "doc_path ident = ident @ ''.json''"

text \<open>What the handlers take from outside the data directory: the segments of the
  absolute path \<^verbatim>\<open>WORKSPACE_ROOT\<close>, and for an absolute path outside the data directory
  whether \<^verbatim>\<open>fs.writeFile\<close> to it succeeds.\<close>

record host =
  workspace_root :: "string list"
  outside_writable :: "string list \<Rightarrow> bool"

text \<open>\<^verbatim>\<open>DATA_DIR = path.join(path.join(WORKSPACE_ROOT, '.gitmemory'), 'data')\<close>, as
  the list of its segments.\<close>

definition data_dir :: "host \<Rightarrow> string list" where
  "data_dir h = workspace_root h @ [''.gitmemory'', ''data'']"

text \<open>The segments of a path between its slashes.\<close>

fun split_slash :: "string \<Rightarrow> string list" where
  "split_slash [] = [[]]"
| "split_slash (c # cs) =
     (if c = CHR ''/'' then [] # split_slash cs
      else (c # hd (split_slash cs)) # tl (split_slash cs))"

text \<open>One step of \<^verbatim>\<open>path.normalize\<close> on an absolute path, whose segments so far are kept
  innermost first: an empty segment and \<^verbatim>\<open>.\<close> are dropped, \<^verbatim>\<open>..\<close> leaves the innermost
  directory (and stays at the root), any other segment is entered.\<close>

definition enter :: "string \<Rightarrow> string list \<Rightarrow> string list" where
  "enter seg inner =
     (if seg = '''' \<or> seg = ''.'' then inner
      else if seg = ''..'' then tl inner
      else seg # inner)"

text \<open>\<^verbatim>\<open>path.join(DATA_DIR, name)\<close>, as the list of the segments of the result.\<close>

definition join_data :: "host \<Rightarrow> string \<Rightarrow> string list" where
  "join_data h name = rev (fold enter (split_slash name) (rev (data_dir h)))"

text \<open>\<^verbatim>\<open>fs.writeFile(path.join(DATA_DIR, name), JSON.stringify(v, null, 2))\<close>; \<open>None\<close> when
  it throws. A path that names a file directly in the data directory writes that
  file. Any other path at or below the data directory names the directory itself or
  passes through an entry of it, none of which is a directory, and the write throws.
  A path outside the data directory leaves the data directory as it is, and the host
  says whether the write succeeds.\<close>

definition write_json :: "host \<Rightarrow> string \<Rightarrow> json \<Rightarrow> dir \<Rightarrow> dir option" where
  "write_json h name v d =
     (let p = join_data h name
      in if prefix (data_dir h) p
         then (case drop (length (data_dir h)) p of
                 [f] \<Rightarrow> Some (writeFile f (Text v) d)
               | _ \<Rightarrow> None)
         else if outside_writable h p then Some d else None)"

text \<open>\<^verbatim>\<open>saveMemory\<close> writes a document to \<^verbatim>\<open>path.join(DATA_DIR, `${memory.id}.json`)\<close>;
  \<open>None\<close> when the template literal or the write throws.\<close>

definition saveMemory :: "host \<Rightarrow> json \<Rightarrow> dir \<Rightarrow> dir option" where
  "saveMemory h memory d =
     (case template (field memory ''id'') of
        None \<Rightarrow> None
      | Some ident \<Rightarrow> write_json h (doc_path ident) memory d)"


subsection \<open>Adding a document\<close>

text \<open>\<^verbatim>\<open>POST /v3/documents\<close>. Destructuring a \<^verbatim>\<open>null\<close> body, calling \<^verbatim>\<open>startsWith\<close> on
  anything but a string and a failing \<^verbatim>\<open>saveMemory\<close> throw, outside any handler of the
  route.\<close>

definition create_doc ::
  "host \<Rightarrow> string \<Rightarrow> string \<Rightarrow> json \<Rightarrow> dir \<Rightarrow> (failure + json) \<times> dir" where
  "create_doc h ident now body d =
     (if body = JNull then (Inl InternalError, d)
      else case field body ''content'' of
        Some (JStr content) \<Rightarrow>
          (let type = (if prefix ''http'' content then ''link'' else ''note'');
               memory = JObj (fmap_of_list
                 [(''id'', JStr ident),
                  (''content'', JStr content),
                  (''url'', if type = ''link'' then JStr content else JNull),
                  (''title'', if type = ''link'' then JStr content else JStr (take 50 content)),
                  (''type'', JStr type),
                  (''status'', JStr ''done''),
                  (''createdAt'', JStr now),
                  (''updatedAt'', JStr now),
                  (''containerTags'', or_else (field body ''containerTags'') (JArr [])),
                  (''metadata'', or_else (field body ''metadata'') (JObj fmempty)),
                  (''memoryEntries'', JArr [])])
           in case saveMemory h memory d of
                Some d' \<Rightarrow> (Inr memory, d')
              | None \<Rightarrow> (Inl InternalError, d))
      | _ \<Rightarrow> (Inl InternalError, d))"


subsection \<open>Reading all documents\<close>

text \<open>\<^verbatim>\<open>new Date(v).getTime()\<close>: \<^verbatim>\<open>undefined\<close> gives \<^verbatim>\<open>NaN\<close> (\<open>Inr None\<close>), \<^verbatim>\<open>null\<close> and
  the booleans convert to numbers, a number is a time value when it is within the range
  of dates, a string is parsed, and an array or an object is converted to a string,
  which throws (\<open>Inl\<close>) or is parsed.\<close>

definition date_ms :: "(string \<Rightarrow> int option) \<Rightarrow> json option \<Rightarrow> failure + int option" where
  "date_ms dp v =
     (case v of
        None \<Rightarrow> Inr None
      | Some JNull \<Rightarrow> Inr (Some 0)
      | Some (JBool b) \<Rightarrow> Inr (Some (if b then 1 else 0))
      | Some (JNum i) \<Rightarrow> Inr (if \<bar>i\<bar> \<le> 8640000000000000 then Some i else None)
      | Some x \<Rightarrow> (case js_string x of
                    None \<Rightarrow> Inl InternalError
                  | Some s \<Rightarrow> Inr (dp s)))"

text \<open>The creation time of a document that is not \<^verbatim>\<open>null\<close>, when it has one.\<close>

definition created :: "(string \<Rightarrow> int option) \<Rightarrow> json \<Rightarrow> int option" where
  "created dp m = (case date_ms dp (field m ''createdAt'') of Inr t \<Rightarrow> t | Inl e \<Rightarrow> None)"

text \<open>The documents on which the comparator does not throw: \<^verbatim>\<open>a.createdAt\<close> throws on
  \<^verbatim>\<open>null\<close>, and \<^verbatim>\<open>new Date\<close> throws as above.\<close>

definition comparable :: "(string \<Rightarrow> int option) \<Rightarrow> json \<Rightarrow> bool" where
  "comparable dp m =
     (m \<noteq> JNull \<and>
      (case date_ms dp (field m ''createdAt'') of Inr t \<Rightarrow> True | Inl e \<Rightarrow> False))"

text \<open>The comparator \<^verbatim>\<open>(a, b) => new Date(b.createdAt).getTime() - new
  Date(a.createdAt).getTime()\<close> on comparable documents; \<^verbatim>\<open>sort\<close> reads a \<^verbatim>\<open>NaN\<close>
  result as 0.\<close>

definition newest_first :: "(string \<Rightarrow> int option) \<Rightarrow> json \<Rightarrow> json \<Rightarrow> int" where
  "newest_first dp a b =
     (case (created dp b, created dp a) of
        (Some tb, Some ta) \<Rightarrow> tb - ta
      | _ \<Rightarrow> 0)"

text \<open>\<^verbatim>\<open>Array.prototype.sort\<close> is stable. With a comparator that orders the elements
  consistently every stable sort returns the same array, and the insertion sort below
  computes it; with an inconsistent comparator (a \<^verbatim>\<open>NaN\<close> among the times) the
  language leaves the order to the engine, and the statements about order below
  assume valid times.\<close>

fun place :: "('a \<Rightarrow> 'a \<Rightarrow> int) \<Rightarrow> 'a \<Rightarrow> 'a list \<Rightarrow> 'a list" where
  "place cmp x [] = [x]"
| "place cmp x (y # ys) = (if cmp x y \<le> 0 then x # y # ys else y # place cmp x ys)"

fun js_sort :: "('a \<Rightarrow> 'a \<Rightarrow> int) \<Rightarrow> 'a list \<Rightarrow> 'a list" where
  "js_sort cmp [] = []"
| "js_sort cmp (x # xs) = place cmp x (js_sort cmp xs)"

text \<open>The loop of \<^verbatim>\<open>getAllMemories\<close> over the names \<^verbatim>\<open>readdir\<close> returned: a name that
  does not end in \<^verbatim>\<open>.json\<close> is passed over, a file that cannot be read or parsed is
  logged and passed over.\<close>

fun read_files :: "dir \<Rightarrow> string list \<Rightarrow> json list" where
  "read_files d [] = []"
| "read_files d (file # files) =
     (if suffix ''.json'' file
      then (case read_json d file of
              Some v \<Rightarrow> v # read_files d files
            | None \<Rightarrow> read_files d files)
      else read_files d files)"

text \<open>Sorting two or more elements calls the comparator on every one of them, sorting
  fewer calls it on none; the sort is outside the \<^verbatim>\<open>try\<close>, so a comparator that
  throws makes \<^verbatim>\<open>getAllMemories\<close> throw.\<close>

definition getAllMemories :: "(string \<Rightarrow> int option) \<Rightarrow> dir \<Rightarrow> failure + json list" where
  "getAllMemories dp d =
     (let memories = read_files d (readdir d)
      in if 2 \<le> length memories \<and> \<not> list_all (comparable dp) memories
         then Inl InternalError
         else Inr (js_sort (newest_first dp) memories))"


subsection \<open>Listing documents\<close>

text \<open>The body of \<^verbatim>\<open>POST /v3/documents/documents\<close> in the shape the route expects:
  \<^verbatim>\<open>page\<close> and \<^verbatim>\<open>limit\<close> are integers when present, \<^verbatim>\<open>containerTags\<close> is an array of
  strings when present.\<close>

record list_body =
  page :: "int option"
  limit :: "int option"
  containerTags :: "string list option"

text \<open>\<^verbatim>\<open>containerTags.includes(t)\<close> for an array of strings: only an equal string is
  included.\<close>

definition tags_include :: "string list \<Rightarrow> json \<Rightarrow> bool" where
  "tags_include tags t = (case t of JStr s \<Rightarrow> s \<in> set tags | _ \<Rightarrow> False)"

text \<open>The filter callback \<^verbatim>\<open>m.containerTags && m.containerTags.some(...)\<close>: it throws
  on a \<^verbatim>\<open>null\<close> document and on truthy tags that are not an array (no \<^verbatim>\<open>some\<close> method).\<close>

definition has_tag :: "string list \<Rightarrow> json \<Rightarrow> failure + bool" where
  "has_tag tags m =
     (if m = JNull then Inl InternalError
      else case field m ''containerTags'' of
        None \<Rightarrow> Inr False
      | Some ct \<Rightarrow>
          if \<not> truthy ct then Inr False
          else (case ct of
                  JArr ts \<Rightarrow> Inr (list_ex (tags_include tags) ts)
                | _ \<Rightarrow> Inl InternalError))"

fun filter_tagged :: "string list \<Rightarrow> json list \<Rightarrow> failure + json list" where
  "filter_tagged tags [] = Inr []"
| "filter_tagged tags (m # ms) =
     (case has_tag tags m of
        Inl e \<Rightarrow> Inl e
      | Inr keep \<Rightarrow>
          (case filter_tagged tags ms of
             Inl e \<Rightarrow> Inl e
           | Inr rest \<Rightarrow> Inr (if keep then m # rest else rest)))"

definition select_tagged :: "string list option \<Rightarrow> json list \<Rightarrow> failure + json list" where
  "select_tagged filt memories =
     (case filt of
        None \<Rightarrow> Inr memories
      | Some tags \<Rightarrow> if 0 < length tags then filter_tagged tags memories else Inr memories)"

text \<open>\<^verbatim>\<open>xs.slice(start, end)\<close> on integers: a negative index counts from the end, and
  both are clamped to the array.\<close>

definition js_slice :: "'a list \<Rightarrow> int \<Rightarrow> int \<Rightarrow> 'a list" where
  "js_slice xs start stop =
     (let len = int (length xs);
          k = (if start < 0 then max (len + start) 0 else min start len);
          final = (if stop < 0 then max (len + stop) 0 else min stop len)
      in take (nat (final - k)) (drop (nat k) xs))"

text \<open>\<^verbatim>\<open>Math.ceil(totalItems / limit)\<close>, as \<^verbatim>\<open>JSON.stringify\<close> prints it: division by zero
  gives \<^verbatim>\<open>Infinity\<close> or \<^verbatim>\<open>NaN\<close>, which are printed as \<^verbatim>\<open>null\<close>.\<close>

definition total_pages :: "int \<Rightarrow> int \<Rightarrow> json" where
  "total_pages totalItems lmt =
     (if lmt = 0 then JNull else JNum \<lceil>(of_int totalItems :: rat) / of_int lmt\<rceil>)"

text \<open>\<^verbatim>\<open>{...m, memoryEntries: []}\<close>\<close>

definition as_document :: "json \<Rightarrow> json" where
  "as_document m = JObj (fmupd ''memoryEntries'' (JArr []) (own m))"

definition list_documents :: "(string \<Rightarrow> int option) \<Rightarrow> list_body \<Rightarrow> dir \<Rightarrow> failure + json" where
  "list_documents dp body d =
     (let pg = (case page body of None \<Rightarrow> 1 | Some p \<Rightarrow> p);
          lmt = (case limit body of None \<Rightarrow> 10 | Some l \<Rightarrow> l)
      in case getAllMemories dp d of
           Inl e \<Rightarrow> Inl e
         | Inr all \<Rightarrow>
             (case select_tagged (containerTags body) all of
                Inl e \<Rightarrow> Inl e
              | Inr memories \<Rightarrow>
                  (let totalItems = int (length memories);
                       totalPages = total_pages totalItems lmt;
                       offset = (pg - 1) * lmt;
                       paginated = js_slice memories offset (offset + lmt);
                       documents = map as_document paginated
                   in Inr (JObj (fmap_of_list
                        [(''documents'', JArr documents),
                         (''pagination'', JObj (fmap_of_list
                            [(''currentPage'', JNum pg),
                             (''limit'', JNum lmt),
                             (''totalItems'', JNum totalItems),
                             (''totalPages'', totalPages)]))])))))"


subsection \<open>Updating, deleting and fetching one document\<close>

text \<open>\<^verbatim>\<open>PATCH /v3/documents/:id\<close>. Everything after the read is inside the \<^verbatim>\<open>try\<close>, so a
  missing or unreadable file, the TypeError of \<^verbatim>\<open>memory.metadata\<close> or
  \<^verbatim>\<open>body.metadata\<close> on \<^verbatim>\<open>null\<close> and a failing \<^verbatim>\<open>saveMemory\<close> all end in the 404
  answer, with nothing written.\<close>

definition update_doc ::
  "host \<Rightarrow> string \<Rightarrow> string \<Rightarrow> json \<Rightarrow> dir \<Rightarrow> (failure + json) \<times> dir" where
  "update_doc h now ident body d =
     (case read_json d (doc_path ident) of
        None \<Rightarrow> (Inl NotFound, d)
      | Some memory \<Rightarrow>
          if memory = JNull \<or> body = JNull then (Inl NotFound, d)
          else
            (let updated = JObj
                   (fmupd ''updatedAt'' (JStr now)
                     (fmupd ''metadata''
                        (JObj (spread (field memory ''metadata'') ++\<^sub>f spread (field body ''metadata'')))
                        (own memory ++\<^sub>f own body)))
             in case saveMemory h updated d of
                  Some d' \<Rightarrow> (Inr updated, d')
                | None \<Rightarrow> (Inl NotFound, d)))"

text \<open>\<^verbatim>\<open>DELETE /v3/documents/:id\<close>\<close>

definition delete_doc :: "string \<Rightarrow> dir \<Rightarrow> (failure + unit) \<times> dir" where
  "delete_doc ident d =
     (case unlink (doc_path ident) d of
        Some d' \<Rightarrow> (Inr (), d')
      | None \<Rightarrow> (Inl NotFound, d))"

text \<open>\<^verbatim>\<open>GET /v3/documents/:id\<close>\<close>

definition get_doc :: "string \<Rightarrow> dir \<Rightarrow> failure + json" where
  "get_doc ident d =
     (case read_json d (doc_path ident) of
        Some v \<Rightarrow> Inr v
      | None \<Rightarrow> Inl NotFound)"


section \<open>Notions used in the statements\<close>

text \<open>The documents held by the readable \<^verbatim>\<open>.json\<close> files of a directory, in directory
  order: what the properties of \<open>getAllMemories\<close> are stated against.\<close>

definition readable_documents :: "dir \<Rightarrow> json list" where
  "readable_documents d =
     concat (map (\<lambda>(name, c). case c of
                                  Text v \<Rightarrow> if suffix ''.json'' name then [v] else []
                                | Unreadable \<Rightarrow> []) d)"

text \<open>The tags of a document, and the shape of document the tag filter can be applied
  to: not \<^verbatim>\<open>null\<close>, with \<^verbatim>\<open>containerTags\<close> absent, falsy or an array.\<close>

definition tags_of :: "json \<Rightarrow> json list" where
  "tags_of m = (case field m ''containerTags'' of Some (JArr ts) \<Rightarrow> ts | _ \<Rightarrow> [])"

definition taggable :: "json \<Rightarrow> bool" where
  "taggable m =
     (m \<noteq> JNull \<and>
      (case field m ''containerTags'' of
         None \<Rightarrow> True
       | Some (JArr ts) \<Rightarrow> True
       | Some ct \<Rightarrow> \<not> truthy ct))"

text \<open>A sequence of update requests to one identifier, each with its time stamp and
  payload, applied in order.\<close>

fun apply_updates :: "host \<Rightarrow> string \<Rightarrow> (string \<times> json) list \<Rightarrow> dir \<Rightarrow> dir" where
  "apply_updates h ident [] d = d"
| "apply_updates h ident ((now, body) # rest) d =
     apply_updates h ident rest (snd (update_doc h now ident body d))"



text \<open>The identifiers \<^verbatim>\<open>crypto.randomUUID()\<close> can return: the text of the hexadecimal
  digits it draws, in five groups joined by dashes.\<close>

definition hex_digit :: "nat \<Rightarrow> char" where
  "hex_digit n = ''0123456789abcdef'' ! (n mod 16)"

definition uuid_string :: "nat list \<Rightarrow> string" where
  "uuid_string digits =
     (let h = map hex_digit digits
      in take 8 h @ ''-'' @ take 4 (drop 8 h) @ ''-'' @ take 4 (drop 12 h) @ ''-'' @
         take 4 (drop 16 h) @ ''-'' @ take 12 (drop 20 h))"


text \<open>Accessors for the answers of the routes: a field of a returned document
  (\<open>None\<close> when the call returned no document), and the documents and a pagination
  field of an answer of the list route.\<close>

definition result_field :: "failure + json \<Rightarrow> string \<Rightarrow> json option" where
  "result_field r name = (case r of Inr v \<Rightarrow> field v name | Inl e \<Rightarrow> None)"

definition documents_of :: "failure + json \<Rightarrow> json list" where
  "documents_of r =
     (case r of
        Inr resp \<Rightarrow> (case field resp ''documents'' of Some (JArr ds) \<Rightarrow> ds | _ \<Rightarrow> [])
      | Inl e \<Rightarrow> [])"



section \<open>Example stores\<close>

text \<open>Concrete directories and requests at which the properties below are evaluated,
  on a host with the workspace at \<^verbatim>\<open>/home/user/supermemory\<close> that refuses every write
  outside the data directory.\<close>

definition demo_host :: host where
  "demo_host =
     \<lparr>workspace_root = [''home'', ''user'', ''supermemory''], outside_writable = (\<lambda>p. False)\<rparr>"

definition two_docs :: dir where
  "two_docs = [(''a.json'', Text (JObj (fmap_of_list [(''id'', JStr ''a'')]))),
               (''b.json'', Text (JObj (fmap_of_list [(''id'', JStr ''b'')])))]"


definition patch_y :: json where
  "patch_y = JObj (fmap_of_list
     [(''title'', JStr ''Y''),
      (''metadata'', JObj (fmap_of_list [(''b'', JNum 3), (''c'', JNum 4)]))])"

text \<open>A stand-in for \<^verbatim>\<open>Date.parse\<close> that knows three time stamps.\<close>

definition demo_date :: "string \<Rightarrow> int option" where
  "demo_date s =
     (if s = ''2024-01-01T00:00:00.000Z'' then Some 1704067200000
      else if s = ''2024-01-02T00:00:00.000Z'' then Some 1704153600000
      else if s = ''2024-01-03T00:00:00.000Z'' then Some 1704240000000
      else None)"

definition doc_t1 :: json where
  "doc_t1 = JObj (fmap_of_list
     [(''id'', JStr ''a''), (''createdAt'', JStr ''2024-01-01T00:00:00.000Z''),
      (''containerTags'', JArr [JStr ''x'', JStr ''y'']),
      (''memoryEntries'', JArr [JStr ''kept''])])"

definition doc_t2 :: json where
  "doc_t2 = JObj (fmap_of_list
     [(''id'', JStr ''b''), (''createdAt'', JStr ''2024-01-02T00:00:00.000Z''),
      (''containerTags'', JArr [JStr ''z''])])"

definition doc_t3 :: json where
  "doc_t3 = JObj (fmap_of_list
     [(''id'', JStr ''c''), (''createdAt'', JStr ''2024-01-03T00:00:00.000Z'')])"

definition three_docs :: dir where
  "three_docs =
     [(''b.json'', Text doc_t2), (''c.json'', Text doc_t3), (''broken.json'', Unreadable),
      (''a.json'', Text doc_t1), (''notes.txt'', Text JNull)]"




definition list_everything :: list_body where
  "list_everything = \<lparr>page = None, limit = None, containerTags = None\<rparr>"

text \<open>A note created through the create route, the document it stores, and payloads
  for the update route.\<close>

definition hello_body :: json where
  "hello_body = JObj (fmap_of_list [(''content'', JStr ''hello world'')])"

definition demo_digits :: "nat list" where
  "demo_digits =
     [1, 11, 4, 14, 2, 8, 11, 10, 2, 15, 10, 1, 4, 13, 3, 11,
      10, 3, 15, 5, 0, 12, 9, 4, 7, 7, 6, 2, 13, 8, 14, 1]"

definition hello_id :: string where
  "hello_id = uuid_string demo_digits"

definition hello_store :: dir where
  "hello_store = snd (create_doc demo_host hello_id ''2024-01-01T00:00:00.000Z'' hello_body [])"

definition hello_doc :: json where
  "hello_doc = JObj (fmap_of_list
     [(''id'', JStr hello_id), (''content'', JStr ''hello world''), (''url'', JNull),
      (''title'', JStr ''hello world''), (''type'', JStr ''note''), (''status'', JStr ''done''),
      (''createdAt'', JStr ''2024-01-01T00:00:00.000Z''),
      (''updatedAt'', JStr ''2024-01-01T00:00:00.000Z''),
      (''containerTags'', JArr []), (''metadata'', JObj fmempty),
      (''memoryEntries'', JArr [])])"

definition retype_patch :: json where
  "retype_patch = JObj (fmap_of_list
     [(''type'', JStr ''file''), (''createdAt'', JStr ''1999-12-31T00:00:00.000Z'')])"

definition retitle_patch :: json where
  "retitle_patch = JObj (fmap_of_list [(''title'', JStr ''Z'')])"








text \<open>A directory with two documents, a file that holds \<^verbatim>\<open>null\<close> and a file that does
  not parse; and the same directory without the file that holds \<^verbatim>\<open>null\<close>.\<close>

definition null_among_docs :: dir where
  "null_among_docs =
     [(''a.json'', Text doc_t1), (''b.json'', Text JNull), (''c.json'', Unreadable),
      (''d.json'', Text doc_t2)]"

definition no_null_docs :: dir where
  "no_null_docs =
     [(''a.json'', Text doc_t1), (''c.json'', Unreadable), (''d.json'', Text doc_t2)]"

text \<open>A document whose \<^verbatim>\<open>createdAt\<close> is an object with a \<^verbatim>\<open>toString\<close> property, in a
  directory with one other document.\<close>

definition odd_date_doc :: json where
  "odd_date_doc = JObj (fmap_of_list
     [(''id'', JStr ''e''),
      (''createdAt'', JObj (fmap_of_list [(''toString'', JNum 1)]))])"

definition odd_date_docs :: dir where
  "odd_date_docs = [(''a.json'', Text doc_t1), (''e.json'', Text odd_date_doc)]"

section \<open>Properties\<close>

subsection \<open>Paths\<close>


lemma split_slash_plain: "CHR ''/'' \<notin> set s \<Longrightarrow> split_slash s = [s]"
  by (induction s) auto



lemma enter_json_name: "enter (g @ ''.json'') inner = (g @ ''.json'') # inner"
proof -
  have "g @ ''.json'' \<noteq> ''''" by simp
  moreover have "g @ ''.json'' \<noteq> ''.''" "g @ ''.json'' \<noteq> ''..''"
    by (cases g; cases "tl g"; simp)+
  ultimately show ?thesis by (simp add: enter_def)
qed


lemma join_data_plain:
  "CHR ''/'' \<notin> set ident \<Longrightarrow> join_data h (doc_path ident) = data_dir h @ [doc_path ident]"
proof -
  assume "CHR ''/'' \<notin> set ident"
  then have "split_slash (doc_path ident) = [doc_path ident]"
    by (simp add: split_slash_plain doc_path_def)
  then show ?thesis
    using enter_json_name [of ident] by (simp add: join_data_def doc_path_def)
qed


lemma write_json_file:
  "join_data h name = data_dir h @ [f] \<Longrightarrow> write_json h name v d = Some (writeFile f (Text v) d)"
  by (simp add: write_json_def Let_def)

lemma write_json_cases:
  assumes "write_json h name v d = Some d'"
  shows "d' = d \<or> (\<exists>f. join_data h name = data_dir h @ [f] \<and> d' = writeFile f (Text v) d)"
proof (cases "prefix (data_dir h) (join_data h name)")
  case False
  with assms show ?thesis
    by (auto simp: write_json_def Let_def split: if_splits)
next
  case True
  then obtain rest where r: "join_data h name = data_dir h @ rest"
    by (auto simp: prefix_def)
  with assms True obtain f where "rest = [f]" "d' = writeFile f (Text v) d"
    by (auto simp: write_json_def Let_def split: list.splits)
  with r show ?thesis by blast
qed

lemma write_json_plain:
  "CHR ''/'' \<notin> set ident \<Longrightarrow>
   write_json h (doc_path ident) v d = Some (writeFile (doc_path ident) (Text v) d)"
  by (simp add: write_json_file join_data_plain)

lemma hex_digit_no_slash: "hex_digit n \<noteq> CHR ''/''"
proof -
  have "hex_digit n \<in> set ''0123456789abcdef''"
    unfolding hex_digit_def by (rule nth_mem) simp
  then show ?thesis by auto
qed

lemma uuid_string_no_slash: "CHR ''/'' \<notin> set (uuid_string digits)"
proof -
  have "\<forall>c \<in> set (map hex_digit digits). c \<noteq> CHR ''/''"
    by (simp add: hex_digit_no_slash)
  then have "CHR ''/'' \<notin> set (map hex_digit digits)"
    by blast
  then have "CHR ''/'' \<notin> set (take n (drop k (map hex_digit digits)))" for n k
    by (meson in_set_dropD in_set_takeD)
  moreover have "CHR ''/'' \<notin> set (take n (map hex_digit digits))" for n
    using \<open>CHR ''/'' \<notin> set (map hex_digit digits)\<close> by (meson in_set_takeD)
  ultimately show ?thesis
    by (simp add: uuid_string_def Let_def)
qed

subsection \<open>Classification of new documents\<close>

lemma saveMemory_string_id:
  "field v ''id'' = Some (JStr ident) \<Longrightarrow> CHR ''/'' \<notin> set ident \<Longrightarrow>
   saveMemory h v d = Some (writeFile (doc_path ident) (Text v) d)"
  by (simp add: saveMemory_def template_def write_json_plain)

text \<open>
  C1. Whenever the content of a create request is a string, the call returns a record
  and stores the same record in the file of its identifier, for every identifier
  \<^verbatim>\<open>randomUUID\<close> can return. If the content starts with \<^verbatim>\<open>http\<close> the record has type
  \<^verbatim>\<open>link\<close> and both its url and its title are the content; otherwise it has type
  \<^verbatim>\<open>note\<close>, url \<^verbatim>\<open>null\<close> and the first 50 characters of the content as its title. A
  request whose content is not a string returns no record.
\<close>

theorem create_doc_classifies:
  "(\<forall>content. field body ''content'' = Some (JStr content) \<longrightarrow>
      (\<exists>r. create_doc h (uuid_string digits) now body d =
             (Inr r, writeFile (doc_path (uuid_string digits)) (Text r) d) \<and>
           field r ''id'' = Some (JStr (uuid_string digits)) \<and>
           (if prefix ''http'' content
            then field r ''type'' = Some (JStr ''link'') \<and>
                 field r ''url'' = Some (JStr content) \<and>
                 field r ''title'' = Some (JStr content)
            else field r ''type'' = Some (JStr ''note'') \<and>
                 field r ''url'' = Some JNull \<and>
                 field r ''title'' = Some (JStr (take 50 content))))) \<and>
   ((\<forall>content. field body ''content'' \<noteq> Some (JStr content)) \<longrightarrow>
      create_doc h (uuid_string digits) now body d = (Inl InternalError, d))"
proof (intro conjI allI impI)
  fix content
  assume c: "field body ''content'' = Some (JStr content)"
  then have nn: "body \<noteq> JNull"
    by (auto simp: field_def)
  let ?ident = "uuid_string digits"
  define type where "type = (if prefix ''http'' content then ''link'' else ''note'')"
  define r where "r = JObj (fmap_of_list
                 [(''id'', JStr ?ident),
                  (''content'', JStr content),
                  (''url'', if type = ''link'' then JStr content else JNull),
                  (''title'', if type = ''link'' then JStr content else JStr (take 50 content)),
                  (''type'', JStr type),
                  (''status'', JStr ''done''),
                  (''createdAt'', JStr now),
                  (''updatedAt'', JStr now),
                  (''containerTags'', or_else (field body ''containerTags'') (JArr [])),
                  (''metadata'', or_else (field body ''metadata'') (JObj fmempty)),
                  (''memoryEntries'', JArr [])])"
  have rid: "field r ''id'' = Some (JStr ?ident)"
    by (simp add: r_def field_def)
  have save: "saveMemory h r d = Some (writeFile (doc_path ?ident) (Text r) d)"
    using rid uuid_string_no_slash by (rule saveMemory_string_id)
  have run: "create_doc h ?ident now body d = (Inr r, writeFile (doc_path ?ident) (Text r) d)"
    using c nn save by (simp add: create_doc_def Let_def r_def type_def)
  have cls: "if prefix ''http'' content
            then field r ''type'' = Some (JStr ''link'') \<and>
                 field r ''url'' = Some (JStr content) \<and>
                 field r ''title'' = Some (JStr content)
            else field r ''type'' = Some (JStr ''note'') \<and>
                 field r ''url'' = Some JNull \<and>
                 field r ''title'' = Some (JStr (take 50 content))"
    by (simp add: r_def type_def field_def)
  from run rid cls
  show "\<exists>r. create_doc h ?ident now body d = (Inr r, writeFile (doc_path ?ident) (Text r) d) \<and>
           field r ''id'' = Some (JStr ?ident) \<and>
           (if prefix ''http'' content
            then field r ''type'' = Some (JStr ''link'') \<and>
                 field r ''url'' = Some (JStr content) \<and>
                 field r ''title'' = Some (JStr content)
            else field r ''type'' = Some (JStr ''note'') \<and>
                 field r ''url'' = Some JNull \<and>
                 field r ''title'' = Some (JStr (take 50 content)))"
    by blast
next
  assume "\<forall>content. field body ''content'' \<noteq> Some (JStr content)"
  then show "create_doc h (uuid_string digits) now body d = (Inl InternalError, d)"
    by (auto simp: create_doc_def split: option.splits json.splits)
qed

theorem create_doc_classifies_witness:
  "field (JObj (fmap_of_list [(''content'', JStr ''hello world'')])) ''content'' = Some (JStr ''hello world'') \<and>
   (case fst (create_doc demo_host (uuid_string demo_digits) ''t1''
        (JObj (fmap_of_list [(''content'', JStr ''hello world'')])) []) of
      Inr r \<Rightarrow> field r ''type'' = Some (JStr ''note'') \<and> field r ''url'' = Some JNull \<and>
              field r ''title'' = Some (JStr ''hello world'')
    | Inl e \<Rightarrow> False) \<and>
   field (JObj (fmap_of_list [(''content'', JStr ''http://example.com'')])) ''content'' = Some (JStr ''http://example.com'') \<and>
   (case fst (create_doc demo_host (uuid_string demo_digits) ''t2''
        (JObj (fmap_of_list [(''content'', JStr ''http://example.com'')])) []) of
      Inr r \<Rightarrow> field r ''type'' = Some (JStr ''link'') \<and> field r ''url'' = Some (JStr ''http://example.com'') \<and>
              field r ''title'' = Some (JStr ''http://example.com'')
    | Inl e \<Rightarrow> False) \<and>
   (\<forall>content. field (JObj (fmap_of_list [(''content'', JNum 7)])) ''content'' \<noteq> Some (JStr content)) \<and>
   create_doc demo_host (uuid_string demo_digits) ''t3'' (JObj (fmap_of_list [(''content'', JNum 7)])) [] =
     (Inl InternalError, [])"
  using create_doc_classifies [of "JObj (fmap_of_list [(''content'', JStr ''hello world'')])"
          demo_host demo_digits "''t1''" "[]"]
        create_doc_classifies [of "JObj (fmap_of_list [(''content'', JStr ''http://example.com'')])"
          demo_host demo_digits "''t2''" "[]"]
        create_doc_classifies [of "JObj (fmap_of_list [(''content'', JNum 7)])"
          demo_host demo_digits "''t3''" "[]"]
  by (auto simp: field_def)

subsection \<open>Deletion\<close>

lemma read_json_delete: "read_json (AList.delete name d) name = None"
  by (simp add: read_json_def delete_conv')

text \<open>
  C8. After a successful delete of an identifier, fetching that identifier answers
  NotFound and deleting it again answers NotFound as well, leaving the directory as
  it is; deleting an identifier that has no file answers NotFound, and deleting one
  that has a file succeeds.
\<close>

theorem delete_doc_not_idempotent:
  "(fst (delete_doc ident d) = Inr () \<longrightarrow>
      get_doc ident (snd (delete_doc ident d)) = Inl NotFound \<and>
      delete_doc ident (snd (delete_doc ident d)) = (Inl NotFound, snd (delete_doc ident d))) \<and>
   (doc_path ident \<notin> set (readdir d) \<longrightarrow> delete_doc ident d = (Inl NotFound, d)) \<and>
   (doc_path ident \<in> set (readdir d) \<longrightarrow> fst (delete_doc ident d) = Inr ())"
proof (intro conjI impI)
  assume ok: "fst (delete_doc ident d) = Inr ()"
  then have d': "snd (delete_doc ident d) = AList.delete (doc_path ident) d"
    by (auto simp: delete_doc_def unlink_def split: if_splits)
  show "get_doc ident (snd (delete_doc ident d)) = Inl NotFound"
    by (simp add: d' get_doc_def read_json_delete)
  have "doc_path ident \<notin> set (readdir (AList.delete (doc_path ident) d))"
    by (simp add: readdir_def delete_keys)
  then show "delete_doc ident (snd (delete_doc ident d)) = (Inl NotFound, snd (delete_doc ident d))"
    by (simp add: d' delete_doc_def unlink_def)
next
  assume "doc_path ident \<notin> set (readdir d)"
  then show "delete_doc ident d = (Inl NotFound, d)"
    by (simp add: delete_doc_def unlink_def)
next
  assume "doc_path ident \<in> set (readdir d)"
  then show "fst (delete_doc ident d) = Inr ()"
    by (simp add: delete_doc_def unlink_def)
qed

theorem delete_doc_not_idempotent_witness:
  "fst (delete_doc ''a'' two_docs) = Inr () \<and>
   get_doc ''a'' (snd (delete_doc ''a'' two_docs)) = Inl NotFound \<and>
   fst (delete_doc ''a'' (snd (delete_doc ''a'' two_docs))) = Inl NotFound \<and>
   doc_path ''c'' \<notin> set (readdir two_docs) \<and>
   delete_doc ''c'' two_docs = (Inl NotFound, two_docs) \<and>
   doc_path ''b'' \<in> set (readdir two_docs) \<and>
   fst (delete_doc ''b'' two_docs) = Inr ()"
proof -
  have a: "fst (delete_doc ''a'' two_docs) = Inr ()"
    by (simp add: delete_doc_def unlink_def readdir_def doc_path_def two_docs_def)
  have c: "doc_path ''c'' \<notin> set (readdir two_docs)"
    by (simp add: readdir_def doc_path_def two_docs_def)
  have b: "doc_path ''b'' \<in> set (readdir two_docs)"
    by (simp add: readdir_def doc_path_def two_docs_def)
  show ?thesis
    using delete_doc_not_idempotent [of "''a''" two_docs]
      delete_doc_not_idempotent [of "''c''" two_docs]
      delete_doc_not_idempotent [of "''b''" two_docs] a b c
    by simp
qed

subsection \<open>Sorting and enumeration\<close>

lemma mset_place: "mset (place cmp x xs) = add_mset x (mset xs)"
  by (induction xs) simp_all

lemma mset_js_sort: "mset (js_sort cmp xs) = mset xs"
  by (induction xs) (simp_all add: mset_place)

lemma set_js_sort: "set (js_sort cmp xs) = set xs"
  using mset_js_sort [of cmp xs] by (metis set_mset_mset)

lemma place_insort_key:
  "(\<And>y. y \<in> set ys \<Longrightarrow> (cmp x y \<le> 0) = (k x \<le> k y)) \<Longrightarrow> place cmp x ys = insort_key k x ys"
  by (induction ys) simp_all

lemma js_sort_sort_key:
  "(\<And>x y. x \<in> set xs \<Longrightarrow> y \<in> set xs \<Longrightarrow> (cmp x y \<le> 0) = (k x \<le> k y)) \<Longrightarrow>
   js_sort cmp xs = sort_key k xs"
proof (induction xs)
  case Nil
  show ?case by simp
next
  case (Cons a xs)
  have ih: "js_sort cmp xs = sort_key k xs"
    by (rule Cons.IH) (simp_all add: Cons.prems)
  have "place cmp a (sort_key k xs) = insort_key k a (sort_key k xs)"
    by (rule place_insort_key) (simp add: Cons.prems)
  with ih show ?case by simp
qed

lemma readable_documents_Nil: "readable_documents [] = []"
  by (simp add: readable_documents_def)

lemma readable_documents_Cons:
  "readable_documents ((name, c) # es) =
     (case c of Text v \<Rightarrow> if suffix ''.json'' name then [v] else [] | Unreadable \<Rightarrow> [])
     @ readable_documents es"
  by (simp add: readable_documents_def)

lemma read_files_entries:
  "distinct (map fst d) \<Longrightarrow> set es \<subseteq> set d \<Longrightarrow>
   read_files d (map fst es) = readable_documents es"
proof (induction es)
  case Nil
  show ?case by (simp add: readable_documents_Nil)
next
  case (Cons e es)
  obtain name c where e: "e = (name, c)" by (cases e)
  from Cons.prems e have "map_of d name = Some c" by simp
  then have r: "read_json d name = (case c of Text v \<Rightarrow> Some v | Unreadable \<Rightarrow> None)"
    by (simp add: read_json_def split: fdata.splits)
  from Cons have "read_files d (map fst es) = readable_documents es" by simp
  then show ?case
    by (simp add: e r readable_documents_Cons split: fdata.splits)
qed

lemma read_files_readdir:
  "distinct (readdir d) \<Longrightarrow> read_files d (readdir d) = readable_documents d"
  by (simp add: readdir_def read_files_entries)

lemma created_comparable: "m \<noteq> JNull \<Longrightarrow> created dp m \<noteq> None \<Longrightarrow> comparable dp m"
  by (auto simp: comparable_def created_def split: sum.splits)

lemma newest_first_key:
  assumes "created dp x \<noteq> None" "created dp y \<noteq> None"
  shows "(newest_first dp x y \<le> 0) = (- the (created dp x) \<le> - the (created dp y))"
  using assms by (auto simp: newest_first_def)

lemma singleton_of_mset: "mset zs = {#r#} \<Longrightarrow> zs = [r]"
  by simp

lemma getAllMemories_sort_key:
  assumes dist: "distinct (readdir d)"
    and ok: "\<And>m. m \<in> set (readable_documents d) \<Longrightarrow> m \<noteq> JNull \<and> created dp m \<noteq> None"
  shows "getAllMemories dp d =
         Inr (sort_key (\<lambda>m. - the (created dp m)) (readable_documents d))"
proof -
  have nn: "list_all (comparable dp) (readable_documents d)"
    unfolding list_all_iff
  proof
    fix m
    assume "m \<in> set (readable_documents d)"
    then have "m \<noteq> JNull \<and> created dp m \<noteq> None" by (rule ok)
    then show "comparable dp m"
      by (auto simp: comparable_def created_def split: sum.splits)
  qed
  have "js_sort (newest_first dp) (readable_documents d) =
        sort_key (\<lambda>m. - the (created dp m)) (readable_documents d)"
    by (rule js_sort_sort_key) (simp add: newest_first_key ok)
  with nn show ?thesis
    by (simp add: getAllMemories_def read_files_readdir [OF dist])
qed

text \<open>
  C7. When every readable document has a creation time that \<^verbatim>\<open>Date\<close> accepts,
  \<open>getAllMemories\<close> returns the readable documents, each once, ordered by creation
  time from newest to oldest; documents with the same creation time keep the order in
  which the directory lists their files. In particular three documents created at
  \<open>t1 < t2 < t3\<close> come back as third, second, first, in whatever order their files
  are listed.
\<close>

theorem getAllMemories_newest_first:
  assumes "distinct (readdir d)"
    and "\<forall>m \<in> set (readable_documents d). m \<noteq> JNull \<and> created dp m \<noteq> None"
  shows "\<exists>ms. getAllMemories dp d = Inr ms \<and>
     mset ms = mset (readable_documents d) \<and>
     sorted_wrt (\<lambda>a b. \<exists>ta tb. created dp a = Some ta \<and> created dp b = Some tb \<and> tb \<le> ta) ms \<and>
     (\<forall>t. filter (\<lambda>m. created dp m = Some t) ms =
          filter (\<lambda>m. created dp m = Some t) (readable_documents d)) \<and>
     (\<forall>r1 r2 r3 t1 t2 t3.
        mset (readable_documents d) = {#r1, r2, r3#} \<and>
        created dp r1 = Some t1 \<and> created dp r2 = Some t2 \<and> created dp r3 = Some t3 \<and>
        t1 < t2 \<and> t2 < t3 \<longrightarrow> ms = [r3, r2, r1])"
proof -
  let ?xs = "readable_documents d"
  let ?k = "\<lambda>m. - the (created dp m)"
  let ?ms = "sort_key ?k ?xs"
  have valid: "\<And>m. m \<in> set ?xs \<Longrightarrow> \<exists>t. created dp m = Some t"
    using assms(2) by auto
  have run: "getAllMemories dp d = Inr ?ms"
    using assms by (intro getAllMemories_sort_key) auto
  have perm: "mset ?ms = mset ?xs"
    by simp
  have "sorted (map ?k ?ms)"
    by simp
  then have "sorted_wrt (\<lambda>a b. ?k a \<le> ?k b) ?ms"
    by (simp add: sorted_map)
  then have ord: "sorted_wrt (\<lambda>a b. \<exists>ta tb. created dp a = Some ta \<and> created dp b = Some tb \<and> tb \<le> ta) ?ms"
  proof (rule sorted_wrt_mono_rel [rotated])
    fix a b
    assume "a \<in> set ?ms" "b \<in> set ?ms" "?k a \<le> ?k b"
    then show "\<exists>ta tb. created dp a = Some ta \<and> created dp b = Some tb \<and> tb \<le> ta"
      using valid [of a] valid [of b] by auto
  qed
  have stable: "\<forall>t. filter (\<lambda>m. created dp m = Some t) ?ms = filter (\<lambda>m. created dp m = Some t) ?xs"
  proof
    fix t
    have "filter (\<lambda>m. ?k m = - t) ?ms = filter (\<lambda>m. ?k m = - t) ?xs"
      by (rule sort_key_stable)
    moreover have "filter (\<lambda>m. ?k m = - t) ?ms = filter (\<lambda>m. created dp m = Some t) ?ms"
      by (rule filter_cong) (use valid in auto)
    moreover have "filter (\<lambda>m. ?k m = - t) ?xs = filter (\<lambda>m. created dp m = Some t) ?xs"
      by (rule filter_cong) (use valid in auto)
    ultimately show "filter (\<lambda>m. created dp m = Some t) ?ms = filter (\<lambda>m. created dp m = Some t) ?xs"
      by simp
  qed
  have three: "\<forall>r1 r2 r3 t1 t2 t3.
        mset ?xs = {#r1, r2, r3#} \<and>
        created dp r1 = Some t1 \<and> created dp r2 = Some t2 \<and> created dp r3 = Some t3 \<and>
        t1 < t2 \<and> t2 < t3 \<longrightarrow> ?ms = [r3, r2, r1]"
  proof (intro allI impI)
    fix r1 r2 r3 t1 t2 t3
    assume h: "mset ?xs = {#r1, r2, r3#} \<and>
        created dp r1 = Some t1 \<and> created dp r2 = Some t2 \<and> created dp r3 = Some t3 \<and>
        t1 < t2 \<and> t2 < t3"
    have one: "\<And>r. r \<in> set [r3, r2, r1] \<Longrightarrow>
        filter (\<lambda>x. ?k r = ?k x) ?xs = filter (\<lambda>x. ?k r = ?k x) [r3, r2, r1]"
    proof -
      fix r
      assume "r \<in> set [r3, r2, r1]"
      have e: "mset ?xs = mset [r3, r2, r1]"
        using h by (simp add: add_mset_commute)
      have "mset (filter (\<lambda>x. ?k r = ?k x) ?xs) = mset (filter (\<lambda>x. ?k r = ?k x) [r3, r2, r1])"
        by (simp only: mset_filter e)
      moreover have "\<exists>z. filter (\<lambda>x. ?k r = ?k x) [r3, r2, r1] = [z]"
        using h \<open>r \<in> set [r3, r2, r1]\<close> by auto
      ultimately show "filter (\<lambda>x. ?k r = ?k x) ?xs = filter (\<lambda>x. ?k r = ?k x) [r3, r2, r1]"
        by (metis singleton_of_mset mset.simps)
    qed
    show "?ms = [r3, r2, r1]"
    proof (rule properties_for_sort_key)
      show "mset [r3, r2, r1] = mset ?xs"
        using h by (simp add: add_mset_commute)
      show "\<And>r. r \<in> set [r3, r2, r1] \<Longrightarrow>
          filter (\<lambda>x. ?k r = ?k x) [r3, r2, r1] = filter (\<lambda>x. ?k r = ?k x) ?xs"
        using one by simp
      show "sorted (map ?k [r3, r2, r1])"
        using h by simp
    qed
  qed
  from run perm ord stable three show ?thesis
    by blast
qed

lemma created_examples:
  "created demo_date doc_t1 = Some 1704067200000"
  "created demo_date doc_t2 = Some 1704153600000"
  "created demo_date doc_t3 = Some 1704240000000"
  by (simp_all add: created_def date_ms_def field_def demo_date_def doc_t1_def doc_t2_def doc_t3_def)

lemma doc_examples_not_null: "doc_t1 \<noteq> JNull" "doc_t2 \<noteq> JNull" "doc_t3 \<noteq> JNull"
  by (simp_all add: doc_t1_def doc_t2_def doc_t3_def)

lemma readable_three_docs: "readable_documents three_docs = [doc_t2, doc_t3, doc_t1]"
  by (simp add: readable_documents_def three_docs_def suffix_to_prefix)

lemma distinct_three_docs: "distinct (readdir three_docs)"
  by (simp add: readdir_def three_docs_def)

theorem getAllMemories_newest_first_witness:
  "distinct (readdir three_docs) \<and>
   list_all (\<lambda>m. m \<noteq> JNull \<and> created demo_date m \<noteq> None) (readable_documents three_docs) \<and>
   getAllMemories demo_date three_docs = Inr [doc_t3, doc_t2, doc_t1]"
proof -
  have ok: "\<forall>m \<in> set (readable_documents three_docs). m \<noteq> JNull \<and> created demo_date m \<noteq> None"
    by (simp add: readable_three_docs created_examples doc_examples_not_null)
  from getAllMemories_newest_first [OF distinct_three_docs ok]
  obtain ms where run: "getAllMemories demo_date three_docs = Inr ms"
    and three: "\<And>r1 r2 r3 t1 t2 t3.
        mset (readable_documents three_docs) = {#r1, r2, r3#} \<and>
        created demo_date r1 = Some t1 \<and> created demo_date r2 = Some t2 \<and>
        created demo_date r3 = Some t3 \<and> t1 < t2 \<and> t2 < t3 \<Longrightarrow> ms = [r3, r2, r1]"
    by blast
  have "ms = [doc_t3, doc_t2, doc_t1]"
    by (rule three [of doc_t1 doc_t2 doc_t3 1704067200000 1704153600000 1704240000000])
       (simp add: readable_three_docs created_examples)
  with run ok distinct_three_docs show ?thesis
    by (simp add: list_all_iff)
qed

subsection \<open>Filtering by container tags\<close>

lemma list_ex_tags_include:
  "list_ex (tags_include tags) ts \<longleftrightarrow> (\<exists>t \<in> set tags. JStr t \<in> set ts)"
proof
  assume "list_ex (tags_include tags) ts"
  then obtain x where x: "x \<in> set ts" "tags_include tags x"
    by (auto simp: list_ex_iff)
  from x(2) obtain s where "x = JStr s" "s \<in> set tags"
    by (auto simp: tags_include_def split: json.splits)
  with x show "\<exists>t \<in> set tags. JStr t \<in> set ts"
    by blast
next
  assume "\<exists>t \<in> set tags. JStr t \<in> set ts"
  then obtain t where t: "t \<in> set tags" "JStr t \<in> set ts"
    by blast
  then have "tags_include tags (JStr t)"
    by (simp add: tags_include_def)
  with t(2) show "list_ex (tags_include tags) ts"
    unfolding list_ex_iff by blast
qed

lemma has_tag_taggable:
  assumes "taggable m"
  shows "has_tag tags m = Inr (\<exists>t \<in> set tags. JStr t \<in> set (tags_of m))"
proof (cases "field m ''containerTags''")
  case None
  with assms show ?thesis
    by (simp add: has_tag_def tags_of_def taggable_def)
next
  case (Some ct)
  with assms show ?thesis
    by (cases ct) (simp_all add: has_tag_def tags_of_def taggable_def list_ex_tags_include)
qed

lemma filter_tagged_taggable:
  "(\<And>m. m \<in> set ms \<Longrightarrow> taggable m) \<Longrightarrow>
   filter_tagged tags ms = Inr (filter (\<lambda>m. \<exists>t \<in> set tags. JStr t \<in> set (tags_of m)) ms)"
  by (induction ms) (simp_all add: has_tag_taggable)

text \<open>
  C6. On documents that are not \<^verbatim>\<open>null\<close> and whose \<^verbatim>\<open>containerTags\<close> is absent, falsy
  or an array, a non-empty tag filter retains exactly the documents that carry at
  least one of the filter's tags, in their order; an empty filter and an absent
  filter retain every document (of any shape).
\<close>

theorem select_tagged_intersection:
  "((\<forall>m \<in> set memories. taggable m) \<and> tags \<noteq> [] \<longrightarrow>
      select_tagged (Some tags) memories =
        Inr (filter (\<lambda>m. \<exists>t \<in> set tags. JStr t \<in> set (tags_of m)) memories)) \<and>
   select_tagged (Some []) memories = Inr memories \<and>
   select_tagged None memories = Inr memories"
  by (simp add: select_tagged_def filter_tagged_taggable)

theorem select_tagged_intersection_witness:
  "list_all taggable [doc_t1, doc_t3] \<and>
   tags_of doc_t1 = [JStr ''x'', JStr ''y''] \<and>
   select_tagged (Some [''y'', ''z'']) [doc_t1, doc_t3] = Inr [doc_t1] \<and>
   select_tagged (Some [''z'']) [doc_t1, doc_t3] = Inr []"
proof -
  have t: "taggable doc_t1" "taggable doc_t3"
    by (simp_all add: taggable_def field_def doc_t1_def doc_t3_def)
  have tg: "tags_of doc_t1 = [JStr ''x'', JStr ''y'']" "tags_of doc_t3 = []"
    by (simp_all add: tags_of_def field_def doc_t1_def doc_t3_def)
  show ?thesis
    using select_tagged_intersection [of "[doc_t1, doc_t3]" "[''y'', ''z'']"]
      select_tagged_intersection [of "[doc_t1, doc_t3]" "[''z'']"] t
    by (simp add: tg)
qed

subsection \<open>Pagination\<close>








subsection \<open>The copies the list route returns\<close>

lemma read_files_from_file:
  "m \<in> set (read_files d names) \<Longrightarrow> \<exists>file \<in> set names. read_json d file = Some m"
  by (induction names) (auto split: if_splits option.splits)

lemma filter_tagged_subset:
  "filter_tagged tags ms = Inr rs \<Longrightarrow> set rs \<subseteq> set ms"
proof (induction ms arbitrary: rs)
  case Nil
  then show ?case by simp
next
  case (Cons m ms)
  then show ?case
    by (auto split: sum.splits if_splits)
qed

lemma select_tagged_subset:
  "select_tagged filt ms = Inr rs \<Longrightarrow> set rs \<subseteq> set ms"
  by (auto simp: select_tagged_def split: option.splits if_splits dest: filter_tagged_subset)

lemma set_js_slice: "set (js_slice xs a b) \<subseteq> set xs"
proof -
  have "set (take n (drop k xs)) \<subseteq> set xs" for n k
    using set_take_subset [of n "drop k xs"] set_drop_subset [of k xs] by blast
  then show ?thesis
    by (simp add: js_slice_def Let_def)
qed

lemma getAllMemories_from_file:
  assumes "getAllMemories dp d = Inr ms" "m \<in> set ms"
  shows "\<exists>file \<in> set (readdir d). read_json d file = Some m"
proof -
  from assms(1) have "ms = js_sort (newest_first dp) (read_files d (readdir d))"
    by (auto simp: getAllMemories_def Let_def split: if_splits)
  with assms(2) have "m \<in> set (read_files d (readdir d))"
    by (simp add: set_js_sort)
  then show ?thesis
    by (rule read_files_from_file)
qed

lemma as_document_fields:
  "field (as_document m) ''memoryEntries'' = Some (JArr [])"
  "name \<noteq> ''memoryEntries'' \<Longrightarrow> field (as_document m) name = field m name"
  by (simp_all add: as_document_def field_def)

text \<open>
  C10. Every document in an answer of the list route is the copy of a document read
  from a file of the directory: its \<^verbatim>\<open>memoryEntries\<close> is the empty array, whatever the
  file holds, and every other field is the one of the file's document. Fetching a
  single document returns the file's document itself, \<^verbatim>\<open>memoryEntries\<close> included.
\<close>

theorem list_documents_blanks_memoryEntries:
  "(\<forall>resp. list_documents dp body d = Inr resp \<longrightarrow>
      (\<exists>docs. field resp ''documents'' = Some (JArr docs) \<and>
         (\<forall>doc \<in> set docs. \<exists>file \<in> set (readdir d). \<exists>m.
             read_json d file = Some m \<and>
             field doc ''memoryEntries'' = Some (JArr []) \<and>
             (\<forall>name. name \<noteq> ''memoryEntries'' \<longrightarrow> field doc name = field m name)))) \<and>
   (\<forall>v. read_json d (doc_path ident) = Some v \<longrightarrow> get_doc ident d = Inr v)"
proof (intro conjI allI impI)
  fix resp
  assume run: "list_documents dp body d = Inr resp"
  define pg where "pg = (case page body of None \<Rightarrow> 1 | Some p \<Rightarrow> p)"
  define lmt where "lmt = (case limit body of None \<Rightarrow> 10 | Some l \<Rightarrow> l)"
  from run obtain ms where ms: "getAllMemories dp d = Inr ms"
    by (auto simp: list_documents_def Let_def split: sum.splits)
  from run ms obtain memories where sel: "select_tagged (containerTags body) ms = Inr memories"
    by (auto simp: list_documents_def Let_def split: sum.splits)
  define docs where
    "docs = map as_document (js_slice memories ((pg - 1) * lmt) ((pg - 1) * lmt + lmt))"
  from run ms sel have docs: "field resp ''documents'' = Some (JArr docs)"
    by (auto simp: list_documents_def Let_def field_def docs_def pg_def lmt_def)
  have "\<forall>doc \<in> set docs. \<exists>file \<in> set (readdir d). \<exists>m.
             read_json d file = Some m \<and>
             field doc ''memoryEntries'' = Some (JArr []) \<and>
             (\<forall>name. name \<noteq> ''memoryEntries'' \<longrightarrow> field doc name = field m name)"
  proof
    fix doc
    assume "doc \<in> set docs"
    then obtain m where m: "doc = as_document m"
      "m \<in> set (js_slice memories ((pg - 1) * lmt) ((pg - 1) * lmt + lmt))"
      by (auto simp: docs_def)
    from m(2) have "m \<in> set memories"
      by (rule subsetD [OF set_js_slice])
    with sel have "m \<in> set ms"
      by (auto dest: select_tagged_subset)
    with ms obtain fname where "fname \<in> set (readdir d)" "read_json d fname = Some m"
      using getAllMemories_from_file by blast
    then show "\<exists>file \<in> set (readdir d). \<exists>m.
             read_json d file = Some m \<and>
             field doc ''memoryEntries'' = Some (JArr []) \<and>
             (\<forall>name. name \<noteq> ''memoryEntries'' \<longrightarrow> field doc name = field m name)"
      using as_document_fields [where m = m] m(1) by blast
  qed
  with docs show "\<exists>docs. field resp ''documents'' = Some (JArr docs) \<and>
         (\<forall>doc \<in> set docs. \<exists>file \<in> set (readdir d). \<exists>m.
             read_json d file = Some m \<and>
             field doc ''memoryEntries'' = Some (JArr []) \<and>
             (\<forall>name. name \<noteq> ''memoryEntries'' \<longrightarrow> field doc name = field m name))"
    by blast
next
  fix v
  assume "read_json d (doc_path ident) = Some v"
  then show "get_doc ident d = Inr v"
    by (simp add: get_doc_def)
qed

lemma getAllMemories_three_docs:
  "getAllMemories demo_date three_docs = Inr [doc_t3, doc_t2, doc_t1]"
  by code_simp

lemma list_three_docs:
  "documents_of (list_documents demo_date list_everything three_docs) =
     map as_document [doc_t3, doc_t2, doc_t1]"
  by (simp add: list_documents_def list_everything_def getAllMemories_three_docs
      select_tagged_def js_slice_def documents_of_def field_def Let_def)

lemma read_three_docs_a: "read_json three_docs (doc_path ''a'') = Some doc_t1"
  by (simp add: read_json_def three_docs_def doc_path_def)

theorem list_documents_blanks_memoryEntries_witness:
  "map (\<lambda>doc. field doc ''id'')
      (documents_of (list_documents demo_date list_everything three_docs)) =
     [Some (JStr ''c''), Some (JStr ''b''), Some (JStr ''a'')] \<and>
   list_all (\<lambda>doc. field doc ''memoryEntries'' = Some (JArr []))
      (documents_of (list_documents demo_date list_everything three_docs)) \<and>
   read_json three_docs (doc_path ''a'') = Some doc_t1 \<and>
   get_doc ''a'' three_docs = Inr doc_t1 \<and>
   field doc_t1 ''memoryEntries'' = Some (JArr [JStr ''kept''])"
proof -
  let ?r = "list_documents demo_date list_everything three_docs"
  note T = list_documents_blanks_memoryEntries [of demo_date list_everything three_docs "''a''"]
  have ids: "map (\<lambda>doc. field doc ''id'') (documents_of ?r) =
      [Some (JStr ''c''), Some (JStr ''b''), Some (JStr ''a'')]"
    unfolding list_three_docs
    by (simp add: as_document_def field_def doc_t1_def doc_t2_def doc_t3_def)
  have ne: "documents_of ?r \<noteq> []"
    unfolding list_three_docs by simp
  have "\<exists>resp. ?r = Inr resp"
  proof (cases ?r)
    case (Inl e)
    with ne show ?thesis by (simp add: documents_of_def)
  next
    case (Inr resp)
    then show ?thesis by blast
  qed
  then obtain resp where resp: "?r = Inr resp" ..
  from T [THEN conjunct1, rule_format, OF resp]
  obtain docs where docs: "field resp ''documents'' = Some (JArr docs)"
    and copies: "\<forall>doc \<in> set docs. \<exists>fname \<in> set (readdir three_docs). \<exists>m.
        read_json three_docs fname = Some m \<and>
        field doc ''memoryEntries'' = Some (JArr []) \<and>
        (\<forall>name. name \<noteq> ''memoryEntries'' \<longrightarrow> field doc name = field m name)"
    by (elim exE conjE)
  have blank: "\<forall>doc \<in> set docs. field doc ''memoryEntries'' = Some (JArr [])"
  proof
    fix doc
    assume "doc \<in> set docs"
    from bspec [OF copies this] show "field doc ''memoryEntries'' = Some (JArr [])"
      by (elim bexE exE conjE)
  qed
  from T [THEN conjunct2] have get: "get_doc ''a'' three_docs = Inr doc_t1"
    using read_three_docs_a by simp
  from resp docs have "documents_of ?r = docs"
    by (simp add: documents_of_def)
  with blank have "list_all (\<lambda>doc. field doc ''memoryEntries'' = Some (JArr [])) (documents_of ?r)"
    by (simp add: list_all_iff)
  moreover have "field doc_t1 ''memoryEntries'' = Some (JArr [JStr ''kept''])"
    by (simp add: field_def doc_t1_def)
  ultimately show ?thesis
    using ids get read_three_docs_a by simp
qed

subsection \<open>Files that parse to something the sort cannot take\<close>

lemma readable_documents_filter:
  "readable_documents (filter (\<lambda>e. snd e \<noteq> Unreadable) d) = readable_documents d"
proof (induction d)
  case Nil
  show ?case by simp
next
  case (Cons e d)
  obtain name c where e: "e = (name, c)" by (cases e)
  from Cons show ?case
    by (cases c) (simp_all add: e readable_documents_Cons)
qed

lemma getAllMemories_readable:
  "distinct (readdir d) \<Longrightarrow>
   getAllMemories dp d =
     (if 2 \<le> length (readable_documents d) \<and> \<not> list_all (comparable dp) (readable_documents d)
      then Inl InternalError
      else Inr (js_sort (newest_first dp) (readable_documents d)))"
  by (simp add: getAllMemories_def read_files_readdir Let_def)

lemma getAllMemories_without_unreadable:
  assumes "distinct (readdir d)"
  shows "getAllMemories dp d = getAllMemories dp (filter (\<lambda>e. snd e \<noteq> Unreadable) d)"
proof -
  have "distinct (readdir (filter (\<lambda>e. snd e \<noteq> Unreadable) d))"
    using assms by (simp add: readdir_def distinct_map_filter)
  then show ?thesis
    using assms by (simp add: getAllMemories_readable readable_documents_filter)
qed

text \<open>
  C9, at inputs where the code does not do what the claim says. A file that cannot
  be read or parsed is passed over without any effect on the result (the lemma
  above). But in a directory that holds two documents, a file that does not parse
  and a file whose text is \<^verbatim>\<open>null\<close>, the parsed \<^verbatim>\<open>null\<close> reaches the sort, whose
  comparator throws outside the \<^verbatim>\<open>try\<close>: \<open>getAllMemories\<close> fails and returns neither of
  the two documents, where without the \<^verbatim>\<open>null\<close> file it returns both. A document whose
  \<^verbatim>\<open>createdAt\<close> is an object with a \<^verbatim>\<open>toString\<close> property does the same to the
  document stored beside it.
\<close>

theorem getAllMemories_aborts_on_parsed_null:
  "readable_documents null_among_docs = [doc_t1, JNull, doc_t2] \<and>
   getAllMemories demo_date null_among_docs = Inl InternalError \<and>
   getAllMemories demo_date no_null_docs = Inr [doc_t2, doc_t1] \<and>
   readable_documents odd_date_docs = [doc_t1, odd_date_doc] \<and>
   getAllMemories demo_date odd_date_docs = Inl InternalError"
  by code_simp

subsection \<open>Updating replaces fields and merges metadata one level deep\<close>

lemma read_json_writeFile: "read_json (writeFile name (Text v) d) name = Some v"
  by (simp add: read_json_def writeFile_def update_conv')





subsection \<open>What an update leaves alone\<close>

lemma read_json_writeFile_other:
  "name' \<noteq> name \<Longrightarrow> read_json (writeFile name c d) name' = read_json d name'"
  by (simp add: read_json_def writeFile_def update_conv')


lemma saveMemory_cases:
  assumes "saveMemory h v d = Some d'"
  shows "d' = d \<or> (\<exists>f. d' = writeFile f (Text v) d)"
proof -
  from assms obtain ident where "write_json h (doc_path ident) v d = Some d'"
    by (auto simp: saveMemory_def split: option.splits)
  from write_json_cases [OF this] show ?thesis by blast
qed

lemma update_doc_keeps_field:
  assumes "read_json d (doc_path ident) = Some v"
    and "field body name = None" and "name \<noteq> ''metadata''" and "name \<noteq> ''updatedAt''"
  shows "\<exists>v'. read_json (snd (update_doc h now ident body d)) (doc_path ident) = Some v' \<and>
              field v' name = field v name"
proof (cases "v = JNull \<or> body = JNull")
  case True
  with assms(1) have "snd (update_doc h now ident body d) = d"
    by (auto simp: update_doc_def)
  with assms(1) show ?thesis by simp
next
  case False
  define updated where "updated = JObj (fmupd ''updatedAt'' (JStr now)
      (fmupd ''metadata''
         (JObj (spread (field v ''metadata'') ++\<^sub>f spread (field body ''metadata'')))
         (own v ++\<^sub>f own body)))"
  have d': "snd (update_doc h now ident body d) =
      (case saveMemory h updated d of Some d' \<Rightarrow> d' | None \<Rightarrow> d)"
    unfolding updated_def using assms(1) False
    by (simp add: update_doc_def Let_def split: option.splits)
  have same: "field updated name = field v name"
    using assms(2,3,4) by (auto simp: updated_def field_def)
  show ?thesis
  proof (cases "saveMemory h updated d")
    case None
    with d' assms(1) show ?thesis by simp
  next
    case (Some d1)
    from saveMemory_cases [OF Some]
    have "d1 = d \<or> (\<exists>f. d1 = writeFile f (Text updated) d)" .
    then show ?thesis
    proof
      assume "d1 = d"
      with d' Some assms(1) show ?thesis by simp
    next
      assume "\<exists>f. d1 = writeFile f (Text updated) d"
      then obtain f where f: "d1 = writeFile f (Text updated) d" ..
      show ?thesis
      proof (cases "f = doc_path ident")
        case True
        with f have "read_json d1 (doc_path ident) = Some updated"
          by (simp add: read_json_writeFile)
        with d' Some same show ?thesis by simp
      next
        case False
        with f have "read_json d1 (doc_path ident) = read_json d (doc_path ident)"
          by (simp add: read_json_writeFile_other)
        with d' Some assms(1) show ?thesis by simp
      qed
    qed
  qed
qed

text \<open>
  C3, as the code has it. Through every sequence of updates applied to an identifier
  whose payloads supply neither a \<^verbatim>\<open>type\<close> nor a \<^verbatim>\<open>createdAt\<close> field, the document
  stored under that identifier keeps its \<^verbatim>\<open>type\<close> and its \<^verbatim>\<open>createdAt\<close>.
\<close>

theorem updates_keep_type_and_createdAt:
  assumes "\<forall>p \<in> set ps. field (snd p) ''type'' = None \<and> field (snd p) ''createdAt'' = None"
    and "read_json d (doc_path ident) = Some v"
  shows "\<exists>v'. read_json (apply_updates h ident ps d) (doc_path ident) = Some v' \<and>
              field v' ''type'' = field v ''type'' \<and>
              field v' ''createdAt'' = field v ''createdAt''"
  using assms
proof (induction ps arbitrary: d v)
  case Nil
  then show ?case by simp
next
  case (Cons p ps)
  obtain now body where p: "p = (now, body)" by (cases p)
  let ?d = "snd (update_doc h now ident body d)"
  from Cons.prems p have b: "field body ''type'' = None" "field body ''createdAt'' = None"
    by simp_all
  from update_doc_keeps_field [OF Cons.prems(2) b(1), of h now]
  obtain v1 where v1: "read_json ?d (doc_path ident) = Some v1" "field v1 ''type'' = field v ''type''"
    by auto
  from update_doc_keeps_field [OF Cons.prems(2) b(2), of h now] v1(1)
  have c1: "field v1 ''createdAt'' = field v ''createdAt''"
    by auto
  have rest: "\<forall>p \<in> set ps. field (snd p) ''type'' = None \<and> field (snd p) ''createdAt'' = None"
    using Cons.prems(1) by simp
  from Cons.IH [OF rest v1(1)] v1(2) c1 show ?case
    by (simp add: p)
qed

lemma hello_id_plain: "CHR ''/'' \<notin> set hello_id"
  by (simp add: hello_id_def uuid_string_no_slash)

lemma create_hello:
  "create_doc demo_host hello_id ''2024-01-01T00:00:00.000Z'' hello_body [] =
     (Inr hello_doc, [(doc_path hello_id, Text hello_doc)])"
proof -
  have "field hello_doc ''id'' = Some (JStr hello_id)"
    by (simp add: hello_doc_def field_def)
  then have "saveMemory demo_host hello_doc [] = Some [(doc_path hello_id, Text hello_doc)]"
    using hello_id_plain by (simp add: saveMemory_string_id writeFile_def)
  then show ?thesis
    by (simp add: create_doc_def hello_body_def hello_doc_def field_def or_else_def Let_def)
qed

lemma hello_store_eq: "hello_store = [(doc_path hello_id, Text hello_doc)]"
  by (simp add: hello_store_def create_hello)

lemma read_hello_store: "read_json hello_store (doc_path hello_id) = Some hello_doc"
  by (simp add: hello_store_eq read_json_def)

theorem update_overwrites_type_counterexample:
  "result_field (fst (create_doc demo_host hello_id ''2024-01-01T00:00:00.000Z'' hello_body []))
     ''type'' = Some (JStr ''note'') \<and>
   result_field (fst (create_doc demo_host hello_id ''2024-01-01T00:00:00.000Z'' hello_body []))
     ''createdAt'' = Some (JStr ''2024-01-01T00:00:00.000Z'') \<and>
   result_field (get_doc hello_id
       (apply_updates demo_host hello_id [(''2024-02-02T00:00:00.000Z'', retype_patch)] hello_store))
     ''type'' = Some (JStr ''file'') \<and>
   result_field (get_doc hello_id
       (apply_updates demo_host hello_id [(''2024-02-02T00:00:00.000Z'', retype_patch)] hello_store))
     ''createdAt'' = Some (JStr ''1999-12-31T00:00:00.000Z'')"
proof -
  have c: "result_field (fst (create_doc demo_host hello_id ''2024-01-01T00:00:00.000Z'' hello_body []))
      ''type'' = Some (JStr ''note'')"
    "result_field (fst (create_doc demo_host hello_id ''2024-01-01T00:00:00.000Z'' hello_body []))
      ''createdAt'' = Some (JStr ''2024-01-01T00:00:00.000Z'')"
    by (simp_all add: create_hello result_field_def field_def hello_doc_def)
  have nn: "hello_doc \<noteq> JNull" "retype_patch \<noteq> JNull"
    by (simp_all add: hello_doc_def retype_patch_def)
  define updated where "updated = JObj (fmupd ''updatedAt'' (JStr ''2024-02-02T00:00:00.000Z'')
      (fmupd ''metadata''
         (JObj (spread (field hello_doc ''metadata'') ++\<^sub>f spread (field retype_patch ''metadata'')))
         (own hello_doc ++\<^sub>f own retype_patch)))"
  have i: "field updated ''id'' = Some (JStr hello_id)"
    by (simp add: updated_def field_def hello_doc_def retype_patch_def)
  have sv: "saveMemory demo_host updated hello_store =
      Some (writeFile (doc_path hello_id) (Text updated) hello_store)"
    using i hello_id_plain by (rule saveMemory_string_id)
  have u: "snd (update_doc demo_host ''2024-02-02T00:00:00.000Z'' hello_id retype_patch hello_store) =
      writeFile (doc_path hello_id) (Text updated) hello_store"
    using nn sv unfolding updated_def
    by (simp add: update_doc_def read_hello_store Let_def)
  have g: "get_doc hello_id (writeFile (doc_path hello_id) (Text updated) hello_store) = Inr updated"
    by (simp add: get_doc_def read_json_writeFile)
  have f: "field updated ''type'' = Some (JStr ''file'')"
    "field updated ''createdAt'' = Some (JStr ''1999-12-31T00:00:00.000Z'')"
    by (simp_all add: updated_def field_def retype_patch_def)
  from c f show ?thesis
    by (simp add: u g result_field_def)
qed

theorem updates_keep_type_and_createdAt_witness:
  "list_all (\<lambda>p. field (snd p) ''type'' = None \<and> field (snd p) ''createdAt'' = None)
     [(''2024-02-02T00:00:00.000Z'', patch_y), (''2024-03-03T00:00:00.000Z'', retitle_patch)] \<and>
   read_json hello_store (doc_path hello_id) = Some hello_doc \<and>
   result_field (get_doc hello_id (apply_updates demo_host hello_id
       [(''2024-02-02T00:00:00.000Z'', patch_y), (''2024-03-03T00:00:00.000Z'', retitle_patch)]
       hello_store)) ''type'' = Some (JStr ''note'') \<and>
   result_field (get_doc hello_id (apply_updates demo_host hello_id
       [(''2024-02-02T00:00:00.000Z'', patch_y), (''2024-03-03T00:00:00.000Z'', retitle_patch)]
       hello_store)) ''createdAt'' = Some (JStr ''2024-01-01T00:00:00.000Z'')"
proof -
  let ?ps = "[(''2024-02-02T00:00:00.000Z'', patch_y), (''2024-03-03T00:00:00.000Z'', retitle_patch)]"
  have h: "\<forall>p \<in> set ?ps. field (snd p) ''type'' = None \<and> field (snd p) ''createdAt'' = None"
    by (simp add: field_def patch_y_def retitle_patch_def)
  from updates_keep_type_and_createdAt [OF h read_hello_store, of demo_host]
  obtain v' where v': "read_json (apply_updates demo_host hello_id ?ps hello_store) (doc_path hello_id) = Some v'"
    "field v' ''type'' = field hello_doc ''type''"
    "field v' ''createdAt'' = field hello_doc ''createdAt''"
    by (elim exE conjE)
  have "field hello_doc ''type'' = Some (JStr ''note'')"
    "field hello_doc ''createdAt'' = Some (JStr ''2024-01-01T00:00:00.000Z'')"
    by (simp_all add: field_def hello_doc_def)
  with v' h read_hello_store show ?thesis
    by (simp add: get_doc_def result_field_def list_all_iff)
qed

subsection \<open>Files and identifiers\<close>





























end
